theory Spec2Isabelle
  imports Main "HOL-Library.Multiset"
begin

section \<open>Python values\<close>

text \<open>
  The pipeline passes around the results of \<^verbatim>\<open>json.loads\<close>: dictionaries whose values
  are null, booleans, numbers, strings, arrays or objects.  Control flow in the source
  depends on the dynamic type of such a value (\<^verbatim>\<open>isinstance\<close>) and on its truth value
  (\<^verbatim>\<open>if x:\<close>, \<^verbatim>\<open>a and b\<close>), so both are modelled.
\<close>

datatype pyval =
    PNone
  | PBool bool
  | PInt int
  | PStr string
  | PList "pyval list"
  | PDict "(string \<times> pyval) list"

type_synonym pydict = "(string \<times> pyval) list"

text \<open>Python's truth value of an object: \<^verbatim>\<open>bool(x)\<close>.\<close>

fun truthy :: "pyval \<Rightarrow> bool" where
  "truthy PNone = False"
| "truthy (PBool b) = b"
| "truthy (PInt i) = (i \<noteq> 0)"
| "truthy (PStr s) = (s \<noteq> [])"
| "truthy (PList xs) = (xs \<noteq> [])"
| "truthy (PDict kvs) = (kvs \<noteq> [])"

text \<open>
  Exceptions.  \<open>KeyboardInterrupt\<close> stands for the classes that derive from
  \<^verbatim>\<open>BaseException\<close> but not from \<^verbatim>\<open>Exception\<close>; every other constructor is a subclass
  of \<^verbatim>\<open>Exception\<close> and is caught by \<^verbatim>\<open>except Exception\<close>.
\<close>

datatype exc =
    RateLimitError
  | ProviderError
  | KeyboardInterrupt
  | NameError string
  | KeyError string
  | TypeError
  | ValueError string
  | ScheduleValueError
  | Exception string

fun is_Exception :: "exc \<Rightarrow> bool" where
  "is_Exception KeyboardInterrupt = False"
| "is_Exception _ = True"

text \<open>\<^verbatim>\<open>d[k]\<close> raises \<^verbatim>\<open>KeyError\<close> on a missing key; \<^verbatim>\<open>d.get(k, default)\<close> does not.\<close>

definition py_getitem :: "pydict \<Rightarrow> string \<Rightarrow> exc + pyval" where
  "py_getitem d k = (case map_of d k of None \<Rightarrow> Inl (KeyError k) | Some v \<Rightarrow> Inr v)"

definition py_get :: "pydict \<Rightarrow> string \<Rightarrow> pyval \<Rightarrow> pyval" where
  "py_get d k dflt = (case map_of d k of None \<Rightarrow> dflt | Some v \<Rightarrow> v)"

text \<open>
  \<^verbatim>\<open>s.split(sep)\<close> for a one-character separator: the pieces between the separators,
  empty pieces included, nothing trimmed.  \<^verbatim>\<open>sep.join(pieces)\<close> is its inverse.
\<close>

fun py_split :: "char \<Rightarrow> string \<Rightarrow> string list" where
  "py_split sep [] = [[]]"
| "py_split sep (c # cs) =
     (if c = sep then [] # py_split sep cs
      else (case py_split sep cs of
              [] \<Rightarrow> [[c]]
            | w # ws \<Rightarrow> (c # w) # ws))"

fun py_join :: "char \<Rightarrow> string list \<Rightarrow> string" where
  "py_join sep [] = []"
| "py_join sep [w] = w"
| "py_join sep (w # v # ws) = w @ sep # py_join sep (v # ws)"

section \<open>The document store\<close>

text \<open>
  A document of the \<^verbatim>\<open>news\<close> collection, with the fields that
  \<^verbatim>\<open>_format_news_document\<close> and \<^verbatim>\<open>extract_detailPage\<close> write.  Timestamps are
  seconds since the epoch.  \<open>last_updated\<close> is absent until the first backfill.
\<close>

record doc =
  title :: pyval
  url :: pyval
  published_date :: int
  created_at :: int
  tags :: "pyval list"
  language :: string
  content :: pyval
  keywords_fld :: pyval
  last_updated :: "int option"

text \<open>
  The collection is the list of its documents in insertion order.  Store operations are
  modelled as succeeding; a store failure is outside the model.
\<close>

definition find_one :: "doc list \<Rightarrow> pyval \<Rightarrow> doc option" where
  "find_one store u = find (\<lambda>d. url d = u) store"

text \<open>
  \<^verbatim>\<open>update_one({'url': u}, {'$set': document}, upsert=True)\<close>: the first document with
  that url gets every field of \<open>document\<close> (\<open>last_updated\<close> is not among them and is
  kept); when there is none, \<open>document\<close> is inserted.
\<close>

fun upsert_document :: "doc list \<Rightarrow> pyval \<Rightarrow> doc \<Rightarrow> doc list" where
  "upsert_document [] u document = [document]"
| "upsert_document (d # ds) u document =
     (if url d = u then document\<lparr>last_updated := last_updated d\<rparr> # ds
      else d # upsert_document ds u document)"

text \<open>
  \<^verbatim>\<open>update_one({'url': u}, {'$set': {'content': c, 'keywords': k, 'last_updated': t}})\<close>,
  without upsert: no matching document, no write.
\<close>

fun update_detail :: "doc list \<Rightarrow> pyval \<Rightarrow> pyval \<Rightarrow> pyval \<Rightarrow> int \<Rightarrow> doc list" where
  "update_detail [] u c k t = []"
| "update_detail (d # ds) u c k t =
     (if url d = u then d\<lparr>content := c, keywords_fld := k, last_updated := Some t\<rparr> # ds
      else d # update_detail ds u c k t)"

section \<open>ListPageExtractor.py\<close>

text \<open>
  What the extractor reads from outside: the clock, \<^verbatim>\<open>datetime.strptime\<close> with the
  format \<^verbatim>\<open>%Y-%m-%d\<close> (\<open>None\<close> is its \<^verbatim>\<open>ValueError\<close>), and the crawler.
\<close>

datatype list_outcome =
    LRaises exc
  | LNoContent
  | LBadJson
  | LItems "pydict list"

datatype crawl_outcome =
    CRaises exc
  | CNoResult
  | CNoContent
  | CBadJson
  | CExtracted "pydict list"

record env =
  now :: int
  strptime :: "string \<Rightarrow> int option"
  list_crawl :: "pyval \<Rightarrow> list_outcome"
  detail_crawl :: "nat \<Rightarrow> pyval \<Rightarrow> crawl_outcome"

text \<open>
  \<^verbatim>\<open>_format_news_document(news_data, detail_content=None)\<close>.  The keys are read in the
  order of the source: \<^verbatim>\<open>post_time\<close> inside the \<^verbatim>\<open>try\<close>, then \<^verbatim>\<open>title\<close>,
  \<^verbatim>\<open>further_url\<close>, \<^verbatim>\<open>tag\<close>.  Only \<^verbatim>\<open>ValueError\<close> is caught around \<^verbatim>\<open>strptime\<close>;
  a \<^verbatim>\<open>post_time\<close> that is not a string raises \<^verbatim>\<open>TypeError\<close>.
\<close>

definition normalize_key_words :: "pyval \<Rightarrow> pyval" where
  "normalize_key_words key_words =
     (case key_words of
        PStr s \<Rightarrow> if s \<noteq> [] then PList (map PStr (py_split CHR '','' s)) else PList []
      | PList l \<Rightarrow> PList l
      | _ \<Rightarrow> PList [])"

definition format_news_document :: "env \<Rightarrow> pydict \<Rightarrow> pydict list option \<Rightarrow> exc + doc" where
  "format_news_document e news_data detail_content =
     (case py_getitem news_data ''post_time'' of
        Inl x \<Rightarrow> Inl x
      | Inr post_time \<Rightarrow>
     (case post_time of
        PStr s \<Rightarrow>
          (let published = (case strptime e s of Some t \<Rightarrow> t | None \<Rightarrow> now e) in
           case py_getitem news_data ''title'' of
             Inl x \<Rightarrow> Inl x
           | Inr ti \<Rightarrow>
          (case py_getitem news_data ''further_url'' of
             Inl x \<Rightarrow> Inl x
           | Inr u \<Rightarrow>
          (case py_getitem news_data ''tag'' of
             Inl x \<Rightarrow> Inl x
           | Inr tg \<Rightarrow>
          (let document = \<lparr>title = ti, url = u, published_date = published,
                           created_at = now e,
                           tags = (if truthy tg then [tg] else []),
                           language = ''en'', content = PNone, keywords_fld = PNone,
                           last_updated = None\<rparr>
           in case detail_content of
                Some (first # _) \<Rightarrow>
                  Inr (document\<lparr>content := py_get first ''summary'' PNone,
                                keywords_fld := normalize_key_words
                                              (py_get first ''key_words'' (PStr []))\<rparr>)
              | _ \<Rightarrow> Inr document))))
      | _ \<Rightarrow> Inl TypeError))"

text \<open>
  \<^verbatim>\<open>extract_news_list\<close>, the loop over the stubs of one listing page (lines 195 to
  212).  The stub is appended to the result before the store is looked at.  An exception
  (\<^verbatim>\<open>news['further_url']\<close> or \<^verbatim>\<open>_format_news_document\<close> on a missing key) leaves
  the loop; it is returned with the state reached so far, for the \<^verbatim>\<open>except\<close> of the
  enclosing loop.
\<close>

fun store_news ::
  "env \<Rightarrow> pydict list \<Rightarrow> pydict list \<Rightarrow> doc list \<Rightarrow> exc option \<times> pydict list \<times> doc list"
where
  "store_news e [] all_processed_news st = (None, all_processed_news, st)"
| "store_news e (news # rest) all_processed_news st =
     (let processed = all_processed_news @ [news] in
      case py_getitem news ''further_url'' of
        Inl x \<Rightarrow> (Some x, processed, st)
      | Inr u \<Rightarrow>
          (case find_one st u of
             Some existing_doc \<Rightarrow> store_news e rest processed st
           | None \<Rightarrow>
               (case format_news_document e news None of
                  Inl x \<Rightarrow> (Some x, processed, st)
                | Inr document \<Rightarrow>
                    store_news e rest processed
                      (upsert_document st (url document) document))))"

text \<open>
  The loop over the source urls (lines 143 to 215).  A listing that is missing or does
  not parse is skipped; \<^verbatim>\<open>except Exception\<close> ends the work on one url and goes on with
  the next; anything else propagates.
\<close>

fun crawl_sources ::
  "env \<Rightarrow> pyval list \<Rightarrow> pydict list \<Rightarrow> doc list \<Rightarrow> (exc + pydict list) \<times> doc list"
where
  "crawl_sources e [] all_processed_news st = (Inr all_processed_news, st)"
| "crawl_sources e (u # us) all_processed_news st =
     (case list_crawl e u of
        LRaises x \<Rightarrow>
          if is_Exception x then crawl_sources e us all_processed_news st
          else (Inl x, st)
      | LNoContent \<Rightarrow> crawl_sources e us all_processed_news st
      | LBadJson \<Rightarrow> crawl_sources e us all_processed_news st
      | LItems news_data \<Rightarrow>
          (case store_news e news_data all_processed_news st of
             (None, processed, st') \<Rightarrow> crawl_sources e us processed st'
           | (Some x, processed, st') \<Rightarrow>
               if is_Exception x then crawl_sources e us processed st'
               else (Inl x, st')))"

text \<open>
  The source binds \<^verbatim>\<open>urls\<close> to the empty list; the loop is modelled for any list of
  source urls and \<^verbatim>\<open>extract_news_list\<close> is its instance.
\<close>

definition urls :: "pyval list" where
  "urls = []"

definition extract_news_list_from ::
  "env \<Rightarrow> pyval list \<Rightarrow> doc list \<Rightarrow> (exc + pydict list) \<times> doc list" where
  "extract_news_list_from e us st = crawl_sources e us [] st"

definition extract_news_list :: "env \<Rightarrow> doc list \<Rightarrow> (exc + pydict list) \<times> doc list" where
  "extract_news_list e st = extract_news_list_from e urls st"


subsection \<open>Detail backfill\<close>

text \<open>
  The state that \<^verbatim>\<open>extract_detailPage\<close> works on: the collection, the sleeps made
  (seconds, oldest first) and the urls handed to the crawler by
  \<^verbatim>\<open>extract_detail_content\<close> (oldest first).
\<close>

record world =
  store :: "doc list"
  slept :: "nat list"
  detail_calls :: "pyval list"

text \<open>
  \<^verbatim>\<open>DetailPageContentExtractor.extract_detail_content\<close>.  The crawler's answer to the
  \<open>n\<close>-th call is \<open>detail_crawl e n\<close>.  The \<^verbatim>\<open>try\<close> spans the crawl and
  \<^verbatim>\<open>except Exception\<close> returns \<^verbatim>\<open>None\<close>.
\<close>

definition extract_detail_content ::
  "env \<Rightarrow> pyval \<Rightarrow> world \<Rightarrow> (exc + pydict list option) \<times> world" where
  "extract_detail_content e u w =
     (if \<not> truthy u then (Inr None, w)
      else
        (let w' = w\<lparr>detail_calls := detail_calls w @ [u]\<rparr> in
         case detail_crawl e (length (detail_calls w)) u of
           CRaises x \<Rightarrow> if is_Exception x then (Inr None, w') else (Inl x, w')
         | CNoResult \<Rightarrow> (Inr None, w')
         | CNoContent \<Rightarrow> (Inr None, w')
         | CBadJson \<Rightarrow> (Inr None, w')
         | CExtracted detail_content \<Rightarrow> (Inr (Some detail_content), w')))"

text \<open>
  The names bound in the module \<^verbatim>\<open>ListPageExtractor.py\<close>: its imports (lines 1 to 10)
  and its two classes.  A name that is used and not bound (and is no builtin) raises
  \<^verbatim>\<open>NameError\<close> when it is evaluated.
\<close>

definition module_globals :: "string list" where
  "module_globals =
     [''os'', ''json'', ''asyncio'', ''logging'', ''datetime'', ''timezone'', ''timedelta'',
      ''BaseModel'', ''Field'', ''AsyncWebCrawler'', ''LLMExtractionStrategy'',
      ''DetailPageContentExtractor'', ''MongoClient'', ''TechFinancingNews'',
      ''TechFinancingNewsExtractor'']"

text \<open>
  The \<^verbatim>\<open>while True\<close> loop of \<^verbatim>\<open>extract_detailPage\<close> (lines 230 to 238).  The first
  argument bounds the number of attempts; \<open>None\<close> says that the loop has not ended within
  them.  To match an exception against \<^verbatim>\<open>litellm.RateLimitError\<close> the handler first
  evaluates the name \<^verbatim>\<open>litellm\<close>, then, in its body, the name \<^verbatim>\<open>time\<close>.
\<close>

fun detail_retry ::
  "nat \<Rightarrow> env \<Rightarrow> pyval \<Rightarrow> world \<Rightarrow> ((exc + pydict list option) \<times> world) option" where
  "detail_retry 0 e u w = None"
| "detail_retry (Suc fuel) e u w =
     (case extract_detail_content e u w of
        (Inr detail_page_result, w') \<Rightarrow> Some (Inr detail_page_result, w')
      | (Inl x, w') \<Rightarrow>
          if ''litellm'' \<notin> set module_globals then Some (Inl (NameError ''litellm''), w')
          else if x = RateLimitError then
            (if ''time'' \<notin> set module_globals then Some (Inl (NameError ''time''), w')
             else detail_retry fuel e u (w'\<lparr>slept := slept w' @ [30]\<rparr>))
          else Some (Inl x, w'))"

text \<open>
  The test of line 226:
  \<^verbatim>\<open>existing_doc and existing_doc.get('keywords') and existing_doc.get('content')\<close>.
\<close>

definition complete_doc :: "doc option \<Rightarrow> bool" where
  "complete_doc existing_doc =
     (case existing_doc of
        None \<Rightarrow> False
      | Some d \<Rightarrow> truthy (keywords_fld d) \<and> truthy (content d))"

text \<open>The body of the \<^verbatim>\<open>for\<close> loop of \<^verbatim>\<open>extract_detailPage\<close>, for one stub.\<close>

definition backfill_one ::
  "nat \<Rightarrow> env \<Rightarrow> pydict \<Rightarrow> world \<Rightarrow> ((exc + unit) \<times> world) option" where
  "backfill_one fuel e news_block w =
     (let detail_page_url = py_get news_block ''further_url'' PNone in
      if \<not> truthy detail_page_url then Some (Inr (), w)
      else if complete_doc (find_one (store w) detail_page_url) then Some (Inr (), w)
      else
        (case detail_retry fuel e detail_page_url w of
           None \<Rightarrow> None
         | Some (Inl x, w') \<Rightarrow> Some (Inl x, w')
         | Some (Inr None, w') \<Rightarrow> Some (Inr (), w')
         | Some (Inr (Some detail_page_result), w') \<Rightarrow>
             (case format_news_document e news_block (Some detail_page_result) of
                Inl x \<Rightarrow> Some (Inl x, w')
              | Inr document \<Rightarrow>
                  Some (Inr (),
                        w'\<lparr>store := update_detail (store w') detail_page_url
                                       (content document) (keywords_fld document) (now e)\<rparr>))))"

fun extract_detailPage ::
  "nat \<Rightarrow> env \<Rightarrow> pydict list \<Rightarrow> world \<Rightarrow> ((exc + unit) \<times> world) option" where
  "extract_detailPage fuel e [] w = Some (Inr (), w)"
| "extract_detailPage fuel e (news_block # rest) w =
     (case backfill_one fuel e news_block w of
        None \<Rightarrow> None
      | Some (Inl x, w') \<Rightarrow> Some (Inl x, w')
      | Some (Inr _, w') \<Rightarrow> extract_detailPage fuel e rest w')"

section \<open>EmailService.py\<close>

text \<open>
  An entry of the digest, as \<^verbatim>\<open>get_latest_news_from_mongodb\<close> builds it from a
  document: \<^verbatim>\<open>title\<close>, \<^verbatim>\<open>summary\<close>, \<^verbatim>\<open>key_words\<close>, \<^verbatim>\<open>url\<close>.
\<close>

record news_item =
  item_title :: pyval
  summary :: pyval
  key_words :: pyval
  item_url :: pyval

text \<open>
  The query \<^verbatim>\<open>{'content': {'$ne': None}, 'keywords': {'$ne': []}}\<close>: the content is
  not null and the keywords are not equal to the empty array.  A null \<^verbatim>\<open>keywords\<close> is
  not equal to the empty array.
\<close>

definition digest_query :: "doc \<Rightarrow> bool" where
  "digest_query d = (content d \<noteq> PNone \<and> keywords_fld d \<noteq> PList [])"

text \<open>
  \<^verbatim>\<open>.sort('published_date', -1).limit(10)\<close>.  Documents with equal dates keep their
  insertion order here; the store leaves their order open.
\<close>

definition latest_docs :: "doc list \<Rightarrow> doc list" where
  "latest_docs st = take 10 (sort_key (\<lambda>d. - published_date d) (filter digest_query st))"

definition formatted :: "doc \<Rightarrow> news_item" where
  "formatted news = \<lparr>item_title = title news, summary = content news,
                     key_words = keywords_fld news, item_url = url news\<rparr>"

definition get_latest_news_from_mongodb :: "doc list \<Rightarrow> news_item list" where
  "get_latest_news_from_mongodb st = map formatted (latest_docs st)"

text \<open>
  What the two writers of the collection leave in a document: \<^verbatim>\<open>extract_news_list\<close>
  stores a null content with null keywords, and \<^verbatim>\<open>extract_detailPage\<close> stores a
  content together with the list that \<^verbatim>\<open>_format_news_document\<close> made of the keywords.
  So a document whose content is not null has a list as keywords.
\<close>

fun is_list :: "pyval \<Rightarrow> bool" where
  "is_list (PList l) = True"
| "is_list _ = False"

definition written :: "doc \<Rightarrow> bool" where
  "written d = (content d = PNone \<or> is_list (keywords_fld d))"

text \<open>
  What the mail service reads from outside: the SMTP server (\<open>smtp m n r\<close> says whether
  the \<open>n\<close>-th session, which sends to \<open>r\<close>, goes through; a session that does not raises
  inside the \<^verbatim>\<open>try\<close>), the process environment, the translation service and the
  rendering of the digest, whose text no branch depends on.
\<close>

record mail_env =
  smtp :: "nat \<Rightarrow> string \<Rightarrow> bool"
  environ :: "string \<Rightarrow> string option"
  translate2ZH :: "news_item list \<Rightarrow> exc + news_item list"
  generate_email_html :: "news_item list \<Rightarrow> exc + string"

text \<open>The SMTP sessions opened so far and the sleeps made (seconds, oldest first).\<close>

record mail_world =
  smtp_sessions :: nat
  sleeps :: "nat list"

definition py_range :: "int \<Rightarrow> int list" where
  "py_range n = map int [0..<nat n]"

text \<open>
  The \<^verbatim>\<open>for attempt in range(retry_count)\<close> loop of \<^verbatim>\<open>send_single_email\<close>.  When the
  loop ends without a \<^verbatim>\<open>return\<close> the function returns \<^verbatim>\<open>None\<close>.  Building the
  message before the loop is modelled as succeeding.
\<close>

fun send_attempts ::
  "mail_env \<Rightarrow> string \<Rightarrow> int \<Rightarrow> nat \<Rightarrow> int list \<Rightarrow> mail_world \<Rightarrow> bool option \<times> mail_world"
where
  "send_attempts m recipient retry_count retry_delay [] w = (None, w)"
| "send_attempts m recipient retry_count retry_delay (attempt # rest) w =
     (let w' = w\<lparr>smtp_sessions := smtp_sessions w + 1\<rparr> in
      if smtp m (smtp_sessions w) recipient then (Some True, w')
      else if attempt < retry_count - 1 then
        send_attempts m recipient retry_count retry_delay rest
          (w'\<lparr>sleeps := sleeps w' @ [retry_delay]\<rparr>)
      else (Some False, w'))"

definition send_single_email ::
  "mail_env \<Rightarrow> string \<Rightarrow> int \<Rightarrow> nat \<Rightarrow> mail_world \<Rightarrow> bool option \<times> mail_world" where
  "send_single_email m recipient retry_count retry_delay w =
     send_attempts m recipient retry_count retry_delay (py_range retry_count) w"

text \<open>
  \<^verbatim>\<open>send_email\<close>, lines 199 to 202: the truth value of what \<^verbatim>\<open>send_single_email\<close>
  returned decides between \<^verbatim>\<open>success_count += 1\<close> and
  \<^verbatim>\<open>failed_recipients.append(recipient)\<close>.
\<close>

definition tally :: "bool option \<Rightarrow> string \<Rightarrow> nat \<times> string list \<Rightarrow> nat \<times> string list" where
  "tally sent recipient counts =
     (if sent = Some True then (fst counts + 1, snd counts)
      else (fst counts, snd counts @ [recipient]))"

text \<open>
  The loop over the recipients (lines 194 to 206): two seconds of sleep, then the call
  of \<^verbatim>\<open>self.send_single_email\<close>, then the tally.  The call is the first argument, so
  that the loop can be read with the call the source makes and with any other.
\<close>

fun send_loop_with ::
  "(string \<Rightarrow> mail_world \<Rightarrow> bool option \<times> mail_world) \<Rightarrow> string list \<Rightarrow>
     nat \<times> string list \<Rightarrow> mail_world \<Rightarrow> (nat \<times> string list) \<times> mail_world"
where
  "send_loop_with single [] counts w = (counts, w)"
| "send_loop_with single (recipient # rest) counts w =
     (case single recipient (w\<lparr>sleeps := sleeps w @ [2]\<rparr>) of
        (sent, w') \<Rightarrow> send_loop_with single rest (tally sent recipient counts) w')"

text \<open>
  Line 199 passes no \<^verbatim>\<open>retry_count\<close> and no \<^verbatim>\<open>retry_delay\<close>: the call runs with the
  defaults \<^verbatim>\<open>retry_count=1\<close> and \<^verbatim>\<open>retry_delay=5\<close>.
\<close>

definition send_loop ::
  "mail_env \<Rightarrow> string list \<Rightarrow> nat \<times> string list \<Rightarrow> mail_world \<Rightarrow> (nat \<times> string list) \<times> mail_world"
where
  "send_loop m = send_loop_with (\<lambda>recipient. send_single_email m recipient 1 5)"

definition env_set :: "string option \<Rightarrow> bool" where
  "env_set v = (case v of None \<Rightarrow> False | Some s \<Rightarrow> s \<noteq> [])"

definition send_email ::
  "mail_env \<Rightarrow> string \<Rightarrow> string list \<Rightarrow> mail_world \<Rightarrow> (exc + nat \<times> string list) \<times> mail_world"
where
  "send_email m html_content recipients w =
     (let sender_email = environ m ''EMAIL_USER_WY'';
          sender_password = environ m ''EMAIL_PASSWORD_WY''
      in if \<not> (env_set sender_email \<and> env_set sender_password) then
           (Inl (ValueError ''Missing email configuration in environment variables''), w)
         else
           (case send_loop m recipients (0, []) w of
              ((success_count, failed_recipients), w') \<Rightarrow>
                if success_count = 0 then
                  (Inl (Exception ''All email sending attempts failed''), w')
                else (Inr (success_count, failed_recipients), w')))"

text \<open>
  \<^verbatim>\<open>process_and_send_news(recipients=None)\<close> of a service whose \<^verbatim>\<open>self.recipients\<close> is
  \<open>self_recipients\<close>.  The \<^verbatim>\<open>except\<close> logs and raises the exception again.
\<close>

definition process_and_send_news ::
  "mail_env \<Rightarrow> string list \<Rightarrow> string list option \<Rightarrow> doc list \<Rightarrow> mail_world \<Rightarrow>
     (exc + bool) \<times> mail_world" where
  "process_and_send_news m self_recipients recipients st w =
     (let recipients = (case recipients of
                          None \<Rightarrow> self_recipients
                        | Some rs \<Rightarrow> if rs \<noteq> [] then rs else self_recipients)
      in if recipients = [] then (Inr False, w)
         else
           (case translate2ZH m (get_latest_news_from_mongodb st) of
              Inl x \<Rightarrow> (Inl x, w)
            | Inr translated_data \<Rightarrow>
                (case generate_email_html m translated_data of
                   Inl x \<Rightarrow> (Inl x, w)
                 | Inr email_html \<Rightarrow>
                     (case send_email m email_html recipients w of
                        (Inl x, w') \<Rightarrow> (Inl x, w')
                      | (Inr _, w') \<Rightarrow> (Inr True, w')))))"

text \<open>
  What each recipient's one SMTP session gives when the sessions are numbered from \<open>n\<close>.
\<close>

fun deliveries :: "mail_env \<Rightarrow> nat \<Rightarrow> string list \<Rightarrow> bool list" where
  "deliveries m n [] = []"
| "deliveries m n (recipient # rest) = smtp m n recipient # deliveries m (Suc n) rest"

section \<open>scheduler.py\<close>

text \<open>
  The configuration is a JSON object; a field is \<open>None\<close> when its key is missing, and
  \<^verbatim>\<open>self.config.get(key, default)\<close> then gives the default.
\<close>

record scheduler_config =
  crawler_times :: "string list option"
  email_times :: "string list option"
  crawler_script :: "string option"
  email_script :: "string option"

text \<open>
  The scheduler: its configuration in memory, the configuration file (\<open>None\<close> when
  there is no file) and the jobs registered with the \<^verbatim>\<open>schedule\<close> library, each a time
  of day and the script to run.  Writing and reading the file are modelled as succeeding.
\<close>

record scheduler =
  config :: scheduler_config
  config_file :: "scheduler_config option"
  jobs :: "(string \<times> string) list"

definition save_config :: "scheduler \<Rightarrow> scheduler" where
  "save_config s = s\<lparr>config_file := Some (config s)\<rparr>"

definition default_config :: scheduler_config where
  "default_config = \<lparr>crawler_times = Some [''08:00''], email_times = Some [''16:25''],
                     crawler_script = Some ''ListPageExtractor.py'',
                     email_script = Some ''EmailService.py''\<rparr>"

definition load_config :: "scheduler \<Rightarrow> scheduler" where
  "load_config s =
     (case config_file s of
        Some c \<Rightarrow> s\<lparr>config := c\<rparr>
      | None \<Rightarrow> save_config (s\<lparr>config := default_config\<rparr>))"

definition get_or :: "'a option \<Rightarrow> 'a \<Rightarrow> 'a" where
  "get_or v dflt = (case v of None \<Rightarrow> dflt | Some x \<Rightarrow> x)"

text \<open>
  \<^verbatim>\<open>schedule.every().day.at(time_str).do(self.run_script, script)\<close> for each time of a
  list, in order.  The library checks the time of day: \<open>at_accepts\<close> is that check, and
  a time it refuses raises \<^verbatim>\<open>ScheduleValueError\<close>.  The jobs registered before stay
  registered.
\<close>

fun register ::
  "(string \<Rightarrow> bool) \<Rightarrow> string \<Rightarrow> string list \<Rightarrow> (string \<times> string) list \<Rightarrow>
     exc option \<times> (string \<times> string) list"
where
  "register at_accepts script [] js = (None, js)"
| "register at_accepts script (time_str # rest) js =
     (if at_accepts time_str then register at_accepts script rest (js @ [(time_str, script)])
      else (Some ScheduleValueError, js))"

text \<open>
  \<^verbatim>\<open>setup_schedule\<close>: \<^verbatim>\<open>schedule.clear()\<close>, then the crawler times, then the email
  times.  Nothing in \<^verbatim>\<open>setup_schedule\<close> or \<^verbatim>\<open>set_times\<close> catches the exception.
\<close>

definition setup_schedule :: "(string \<Rightarrow> bool) \<Rightarrow> scheduler \<Rightarrow> exc option \<times> scheduler" where
  "setup_schedule at_accepts s =
     (case register at_accepts (get_or (crawler_script (config s)) ''ListPageExtractor.py'')
             (get_or (crawler_times (config s)) []) [] of
        (Some x, js) \<Rightarrow> (Some x, s\<lparr>jobs := js\<rparr>)
      | (None, js) \<Rightarrow>
          (case register at_accepts (get_or (email_script (config s)) ''EmailService.py'')
                  (get_or (email_times (config s)) []) js of
             (x, js') \<Rightarrow> (x, s\<lparr>jobs := js'\<rparr>)))"

definition set_times ::
  "(string \<Rightarrow> bool) \<Rightarrow> string \<Rightarrow> string list \<Rightarrow> scheduler \<Rightarrow> exc option \<times> scheduler" where
  "set_times at_accepts task_type new_times s =
     setup_schedule at_accepts (save_config
       (if task_type = ''crawler'' then s\<lparr>config := (config s)\<lparr>crawler_times := Some new_times\<rparr>\<rparr>
        else if task_type = ''email'' then s\<lparr>config := (config s)\<lparr>email_times := Some new_times\<rparr>\<rparr>
        else s))"

section \<open>Concrete scenarios\<close>

text \<open>
  A stub of the url \<^verbatim>\<open>u\<close> found on the listing page \<^verbatim>\<open>src\<close>, the detail record of
  its page, and the document stored for it.  The crawler of \<open>sample_env\<close> meets a rate
  limit on its first detail call and extracts the page on every later call.
\<close>

definition sample_stub :: pydict where
  "sample_stub = [(''title'', PStr ''t''), (''tag'', PStr ''AI''),
                  (''further_url'', PStr ''u''), (''post_time'', PStr ''2024-11-28'')]"

definition sample_detail :: "pyval \<Rightarrow> pydict" where
  "sample_detail kw = [(''title'', PStr ''t''), (''summary'', PStr ''s''), (''key_words'', kw)]"

definition sample_doc :: "pyval \<Rightarrow> pyval \<Rightarrow> doc" where
  "sample_doc c k = \<lparr>title = PStr ''t'', url = PStr ''u'', published_date = 500,
                     created_at = 1000, tags = [PStr ''AI''], language = ''en'',
                     content = c, keywords_fld = k, last_updated = None\<rparr>"

definition sample_env :: env where
  "sample_env =
     \<lparr>now = 1000,
      strptime = (\<lambda>s. if s = ''2024-11-28'' then Some 500 else None),
      list_crawl = (\<lambda>u. if u = PStr ''src'' then LItems [sample_stub] else LNoContent),
      detail_crawl = (\<lambda>n u. if n = 0 then CRaises RateLimitError
                             else CExtracted [sample_detail (PStr ''ai,vc'')])\<rparr>"

text \<open>
  A mail service with the given SMTP server and process environment, whose translation
  and rendering go through, and the state in which nothing has been sent yet.
\<close>

definition mail_of :: "(nat \<Rightarrow> string \<Rightarrow> bool) \<Rightarrow> (string \<Rightarrow> string option) \<Rightarrow> mail_env" where
  "mail_of server vars = \<lparr>smtp = server, environ = vars, translate2ZH = Inr,
                           generate_email_html = (\<lambda>data. Inr ''html'')\<rparr>"

definition idle :: mail_world where
  "idle = \<lparr>smtp_sessions = 0, sleeps = []\<rparr>"

text \<open>
  Fifteen complete documents with distinct publication dates, in no particular order.
\<close>

definition dated :: "int \<Rightarrow> doc" where
  "dated t = \<lparr>title = PStr ''t'', url = PInt t, published_date = t, created_at = 1000,
               tags = [], language = ''en'', content = PStr ''s'',
               keywords_fld = PList [PStr ''ai''], last_updated = None\<rparr>"

definition fifteen :: "doc list" where
  "fifteen = map dated [3, 14, 1, 5, 9, 2, 6, 15, 8, 7, 4, 12, 10, 13, 11]"

text \<open>The process environment of a host on which only the sender's address is set.\<close>

definition no_password :: "string \<Rightarrow> string option" where
  "no_password k = (if k = ''EMAIL_USER_WY'' then Some ''me@163.com'' else None)"





text \<open>
  A check of the time of day that accepts \<^verbatim>\<open>HH:MM\<close> up to \<^verbatim>\<open>23:59\<close>, and a scheduler
  whose configuration holds an email time that the check refuses.
\<close>

definition hh_mm :: "string \<Rightarrow> bool" where
  "hh_mm t =
     (case t of
        [a, b, c, d, e] \<Rightarrow>
          a \<in> set ''012'' \<and> b \<in> set ''0123456789'' \<and> c = CHR '':'' \<and>
          d \<in> set ''012345'' \<and> e \<in> set ''0123456789'' \<and>
          (a \<in> set ''01'' \<or> b \<in> set ''0123'')
      | _ \<Rightarrow> False)"

definition bad_email_time :: scheduler where
  "bad_email_time =
     \<lparr>config = default_config\<lparr>email_times := Some [''16:25'', ''bad'', ''17:00'']\<rparr>,
      config_file = None, jobs = []\<rparr>"

section \<open>Keyword normalisation\<close>

lemma py_split_not_Nil: "py_split sep s \<noteq> []"
  by (induction s) (auto split: list.splits)

lemma py_join_Cons_Nil: "ws \<noteq> [] \<Longrightarrow> py_join sep ([] # ws) = sep # py_join sep ws"
  by (cases ws) simp_all

lemma py_join_Cons_char: "py_join sep ((c # w) # ws) = c # py_join sep (w # ws)"
  by (cases ws) simp_all

lemma py_join_split: "py_join sep (py_split sep s) = s"
proof (induction s)
  case Nil
  show ?case by simp
next
  case (Cons c cs)
  show ?case
  proof (cases "c = sep")
    case True
    with Cons show ?thesis by (simp add: py_join_Cons_Nil py_split_not_Nil)
  next
    case False
    obtain w ws where sp: "py_split sep cs = w # ws"
      using py_split_not_Nil [of sep cs] by (cases "py_split sep cs") auto
    with Cons False show ?thesis by (simp add: py_join_Cons_char)
  qed
qed

lemma py_split_no_sep: "w \<in> set (py_split sep s) \<Longrightarrow> sep \<notin> set w"
  by (induction s arbitrary: w) (auto split: if_splits list.splits)

lemma format_news_document_detail:
  assumes "format_news_document e news (Some (first # others)) = Inr document"
  shows "keywords_fld document = normalize_key_words (py_get first ''key_words'' (PStr []))"
    and "content document = py_get first ''summary'' PNone"
  using assms
  by (auto simp: format_news_document_def Let_def split: sum.splits pyval.splits)

text \<open>
  C8.  When \<^verbatim>\<open>_format_news_document\<close> is given a detail record and returns a document:
  a non-empty string \<^verbatim>\<open>key_words\<close> is stored as its split on \<^verbatim>\<open>','\<close>, the pieces
  untrimmed (joining them with \<^verbatim>\<open>','\<close> gives the string back, and no piece contains a
  comma); a list is stored as it is; the empty string is stored as the empty list.
\<close>

theorem format_news_document_keywords:
  assumes "format_news_document e news (Some (first # others)) = Inr document"
  shows "(\<forall>s. map_of first ''key_words'' = Some (PStr s) \<and> s \<noteq> [] \<longrightarrow>
            keywords_fld document = PList (map PStr (py_split CHR '','' s)) \<and>
            py_join CHR '','' (py_split CHR '','' s) = s \<and>
            (\<forall>w \<in> set (py_split CHR '','' s). CHR '','' \<notin> set w)) \<and>
         (\<forall>l. map_of first ''key_words'' = Some (PList l) \<longrightarrow> keywords_fld document = PList l) \<and>
         (map_of first ''key_words'' = Some (PStr []) \<longrightarrow> keywords_fld document = PList [])"
  using format_news_document_detail(1) [OF assms]
  by (auto simp: normalize_key_words_def py_get_def py_join_split dest: py_split_no_sep)

theorem format_news_document_keywords_witness:
  "format_news_document sample_env sample_stub
       (Some [sample_detail (PStr ''ai, startups, funding'')]) =
     Inr (sample_doc (PStr ''s'') (PList [PStr ''ai'', PStr '' startups'', PStr '' funding''])) \<and>
   format_news_document sample_env sample_stub
       (Some [sample_detail (PList [PStr ''ai'', PStr ''vc''])]) =
     Inr (sample_doc (PStr ''s'') (PList [PStr ''ai'', PStr ''vc''])) \<and>
   format_news_document sample_env sample_stub (Some [sample_detail (PStr [])]) =
     Inr (sample_doc (PStr ''s'') (PList []))"
proof -
  let ?run = "\<lambda>kw. format_news_document sample_env sample_stub (Some [sample_detail kw])"
  have shape: "\<exists>k. ?run kw = Inr (sample_doc (PStr ''s'') k)" for kw
    by (simp add: format_news_document_def sample_env_def sample_stub_def sample_detail_def
        sample_doc_def py_getitem_def py_get_def)
  have key: "map_of (sample_detail kw) ''key_words'' = Some kw" for kw
    by (simp add: sample_detail_def)
  have stored: "?run kw = Inr (sample_doc (PStr ''s'') k) \<Longrightarrow> keywords_fld (sample_doc (PStr ''s'') k) = k"
    for kw k by (simp add: sample_doc_def)
  obtain k1 where r1: "?run (PStr ''ai, startups, funding'') = Inr (sample_doc (PStr ''s'') k1)"
    using shape by blast
  obtain k2 where r2: "?run (PList [PStr ''ai'', PStr ''vc'']) = Inr (sample_doc (PStr ''s'') k2)"
    using shape by blast
  obtain k3 where r3: "?run (PStr []) = Inr (sample_doc (PStr ''s'') k3)"
    using shape by blast
  have "k1 = PList [PStr ''ai'', PStr '' startups'', PStr '' funding'']"
    using format_news_document_keywords [OF r1] key stored [OF r1] by simp
  moreover have "k2 = PList [PStr ''ai'', PStr ''vc'']"
    using format_news_document_keywords [OF r2] key stored [OF r2] by simp
  moreover have "k3 = PList []"
    using format_news_document_keywords [OF r3] key stored [OF r3] by simp
  ultimately show ?thesis using r1 r2 r3 by simp
qed

section \<open>Sending with retries\<close>

text \<open>
  C7.  \<^verbatim>\<open>send_single_email\<close> with \<^verbatim>\<open>retry_count=3\<close>, over a transport whose next two
  sessions fail and whose third goes through, returns \<^verbatim>\<open>True\<close>; it has opened three
  sessions and slept exactly twice, each time for \<^verbatim>\<open>retry_delay\<close>.
\<close>

theorem send_single_email_retry:
  assumes "\<not> smtp m (smtp_sessions w) recipient"
    and "\<not> smtp m (smtp_sessions w + 1) recipient"
    and "smtp m (smtp_sessions w + 2) recipient"
  shows "send_single_email m recipient 3 retry_delay w =
           (Some True, w\<lparr>smtp_sessions := smtp_sessions w + 3,
                         sleeps := sleeps w @ [retry_delay, retry_delay]\<rparr>)"
  using assms by (simp add: send_single_email_def py_range_def upt_rec Let_def)

theorem send_single_email_retry_witness:
  "\<not> smtp (mail_of (\<lambda>n r. 2 \<le> n) (\<lambda>k. None)) (smtp_sessions idle) ''a@example.com'' \<and>
   \<not> smtp (mail_of (\<lambda>n r. 2 \<le> n) (\<lambda>k. None)) (smtp_sessions idle + 1) ''a@example.com'' \<and>
   smtp (mail_of (\<lambda>n r. 2 \<le> n) (\<lambda>k. None)) (smtp_sessions idle + 2) ''a@example.com'' \<and>
   send_single_email (mail_of (\<lambda>n r. 2 \<le> n) (\<lambda>k. None)) ''a@example.com'' 3 5 idle =
     (Some True, \<lparr>smtp_sessions = 3, sleeps = [5, 5]\<rparr>)"
proof -
  let ?m = "mail_of (\<lambda>n r. 2 \<le> n) (\<lambda>k. None)"
  have a: "\<not> smtp ?m (smtp_sessions idle) ''a@example.com''"
    and b: "\<not> smtp ?m (smtp_sessions idle + 1) ''a@example.com''"
    and c: "smtp ?m (smtp_sessions idle + 2) ''a@example.com''"
    by (simp_all add: mail_of_def idle_def)
  show ?thesis
    using a b c send_single_email_retry [OF a b c, of 5] by (simp add: idle_def)
qed

section \<open>The digest builder without recipients\<close>

text \<open>
  C3, as the claim states it, fails: with no recipient given and none configured,
  \<^verbatim>\<open>process_and_send_news\<close> returns \<^verbatim>\<open>False\<close> and raises nothing.
\<close>

theorem process_and_send_news_empty_counterexample:
  "process_and_send_news (mail_of (\<lambda>n r. True) (\<lambda>k. Some ''secret'')) [] (Some []) [] idle =
     (Inr False, idle)"
  by (simp add: process_and_send_news_def)

text \<open>
  C3, amended.  When the recipient list passed is empty or absent and the service has no
  recipients of its own, \<^verbatim>\<open>process_and_send_news\<close> returns \<^verbatim>\<open>False\<close> without raising;
  no session is opened and nothing is slept.
\<close>

theorem process_and_send_news_no_recipients:
  "process_and_send_news m [] (Some []) st w = (Inr False, w) \<and>
   process_and_send_news m [] None st w = (Inr False, w)"
  by (simp add: process_and_send_news_def)

section \<open>Partial delivery\<close>

lemma send_single_email_once:
  "send_single_email m r 1 d w = (Some (smtp m (smtp_sessions w) r), w\<lparr>smtp_sessions := smtp_sessions w + 1\<rparr>)"
  by (simp add: send_single_email_def py_range_def Let_def)

lemma send_loop_Nil: "send_loop m [] counts w = (counts, w)"
  by (simp add: send_loop_def)

lemma send_loop_Cons:
  "send_loop m (r # rs) counts w =
     send_loop m rs (tally (Some (smtp m (smtp_sessions w) r)) r counts)
       (w\<lparr>sleeps := sleeps w @ [2], smtp_sessions := smtp_sessions w + 1\<rparr>)"
  by (simp add: send_loop_def send_single_email_once)

lemma send_loop_tally:
  "send_loop m rs (c, f) w =
     ((c + length (filter id (deliveries m (smtp_sessions w) rs)),
       f @ map fst (filter (\<lambda>p. \<not> snd p) (zip rs (deliveries m (smtp_sessions w) rs)))),
      w\<lparr>smtp_sessions := smtp_sessions w + length rs,
         sleeps := sleeps w @ replicate (length rs) 2\<rparr>)"
proof (induction rs arbitrary: c f w)
  case Nil
  show ?case by (simp add: send_loop_Nil)
next
  case (Cons r rs)
  show ?case
    by (simp add: send_loop_Cons Cons.IH tally_def replicate_app_Cons_same)
qed

lemma no_success_iff: "length (filter id bs) = 0 \<longleftrightarrow> (\<forall>b \<in> set bs. \<not> b)"
  by (induction bs) auto

lemma deliveries_nth:
  "i < length rs \<Longrightarrow> deliveries m n rs ! i = smtp m (n + i) (rs ! i)"
  by (induction rs arbitrary: n i) (auto simp: nth_Cons split: nat.splits)

lemma length_deliveries: "length (deliveries m n rs) = length rs"
  by (induction rs arbitrary: n) auto

text \<open>
  C4, as the claim states it, fails: with the password missing from the environment
  \<^verbatim>\<open>send_email\<close> raises before any session is opened, although the one recipient's
  send would have gone through.
\<close>

theorem send_email_missing_password_counterexample:
  "send_email (mail_of (\<lambda>n r. True) no_password) ''html'' [''a@example.com''] idle =
     (Inl (ValueError ''Missing email configuration in environment variables''), idle) \<and>
   deliveries (mail_of (\<lambda>n r. True) no_password) (smtp_sessions idle) [''a@example.com''] =
     [True]"
  by (simp add: send_email_def mail_of_def env_set_def idle_def no_password_def)

text \<open>
  C4, amended.  When the sender's address and password are both set in the environment,
  \<^verbatim>\<open>send_email\<close> raises exactly when every recipient's send failed; when at least one
  went through it returns the number of sends that went through and the recipients
  whose send failed, in the order of the list.
\<close>

theorem send_email_partial_delivery:
  assumes "env_set (environ m ''EMAIL_USER_WY'')"
    and "env_set (environ m ''EMAIL_PASSWORD_WY'')"
  shows "((\<exists>x. fst (send_email m html_content recipients w) = Inl x) \<longleftrightarrow>
            (\<forall>b \<in> set (deliveries m (smtp_sessions w) recipients). \<not> b)) \<and>
         ((\<exists>b \<in> set (deliveries m (smtp_sessions w) recipients). b) \<longrightarrow>
            fst (send_email m html_content recipients w) =
              Inr (length (filter id (deliveries m (smtp_sessions w) recipients)),
                   map fst (filter (\<lambda>p. \<not> snd p)
                              (zip recipients (deliveries m (smtp_sessions w) recipients)))))"
  using assms no_success_iff [of "deliveries m (smtp_sessions w) recipients"]
  by (auto simp: send_email_def send_loop_tally Let_def)

theorem send_email_partial_delivery_witness:
  "env_set (environ (mail_of (\<lambda>n r. r \<noteq> ''b@example.com'') (\<lambda>k. Some ''x'')) ''EMAIL_USER_WY'') \<and>
   env_set (environ (mail_of (\<lambda>n r. r \<noteq> ''b@example.com'') (\<lambda>k. Some ''x'')) ''EMAIL_PASSWORD_WY'') \<and>
   deliveries (mail_of (\<lambda>n r. r \<noteq> ''b@example.com'') (\<lambda>k. Some ''x'')) (smtp_sessions idle)
      [''a@example.com'', ''b@example.com'', ''c@example.com''] = [True, False, True] \<and>
   fst (send_email (mail_of (\<lambda>n r. r \<noteq> ''b@example.com'') (\<lambda>k. Some ''x'')) ''html''
      [''a@example.com'', ''b@example.com'', ''c@example.com''] idle) = Inr (2, [''b@example.com''])"
proof -
  let ?m = "mail_of (\<lambda>n r. r \<noteq> ''b@example.com'') (\<lambda>k. Some ''x'')"
  let ?rs = "[''a@example.com'', ''b@example.com'', ''c@example.com'']"
  have u: "env_set (environ ?m ''EMAIL_USER_WY'')" and p: "env_set (environ ?m ''EMAIL_PASSWORD_WY'')"
    by (simp_all add: mail_of_def env_set_def)
  have d: "deliveries ?m (smtp_sessions idle) ?rs = [True, False, True]"
    by (simp add: mail_of_def)
  show ?thesis
    using u p d send_email_partial_delivery [OF u p, of "''html''" ?rs idle] by simp
qed

section \<open>Detail backfill: which stubs are extracted\<close>

text \<open>
  One attempt always ends the \<^verbatim>\<open>while True\<close> loop: \<^verbatim>\<open>extract_detail_content\<close>
  turns every \<^verbatim>\<open>Exception\<close> into \<^verbatim>\<open>None\<close>, and an exception that is no
  \<^verbatim>\<open>Exception\<close> meets a handler whose name \<^verbatim>\<open>litellm\<close> is not bound.  So the loop
  returns with any positive bound, and it never sleeps.
\<close>

lemma detail_retry_once:
  assumes "truthy u"
  shows "\<exists>r. detail_retry (Suc fuel) e u w = Some (r, w\<lparr>detail_calls := detail_calls w @ [u]\<rparr>)"
  using assms
  by (simp add: extract_detail_content_def module_globals_def Let_def split: crawl_outcome.splits)

lemma detail_retry_rate_limit:
  assumes "truthy u" and "detail_crawl e (length (detail_calls w)) u = CRaises RateLimitError"
  shows "detail_retry (Suc fuel) e u w = Some (Inr None, w\<lparr>detail_calls := detail_calls w @ [u]\<rparr>)"
  using assms by (simp add: extract_detail_content_def Let_def)

lemma backfill_one_calls:
  assumes "truthy (py_get news_block ''further_url'' PNone)"
  shows "\<exists>r w'. backfill_one (Suc fuel) e news_block w = Some (r, w') \<and> slept w' = slept w \<and>
           detail_calls w' =
             (if complete_doc (find_one (store w) (py_get news_block ''further_url'' PNone))
              then detail_calls w
              else detail_calls w @ [py_get news_block ''further_url'' PNone])"
proof (cases "complete_doc (find_one (store w) (py_get news_block ''further_url'' PNone))")
  case True
  with assms show ?thesis by (simp add: backfill_one_def)
next
  case False
  obtain r where "detail_retry (Suc fuel) e (py_get news_block ''further_url'' PNone) w =
      Some (r, w\<lparr>detail_calls := detail_calls w @ [py_get news_block ''further_url'' PNone]\<rparr>)"
    using detail_retry_once [OF assms] by blast
  with assms False show ?thesis
    by (auto simp: backfill_one_def Let_def simp del: detail_retry.simps split: sum.splits option.splits)
qed

lemma extract_detailPage_returns:
  "\<exists>r w'. extract_detailPage (Suc fuel) e news_data w = Some (r, w') \<and> slept w' = slept w"
proof (induction news_data arbitrary: w)
  case Nil
  show ?case by simp
next
  case (Cons nb rest)
  show ?case
  proof (cases "truthy (py_get nb ''further_url'' PNone)")
    case True
    obtain r w1 where b: "backfill_one (Suc fuel) e nb w = Some (r, w1)" "slept w1 = slept w"
      using backfill_one_calls [OF True] by blast
    show ?thesis
    proof (cases r)
      case (Inl x)
      with b show ?thesis by simp
    next
      case (Inr u)
      with b Cons.IH [of w1] show ?thesis by simp
    qed
  next
    case False
    then have "backfill_one (Suc fuel) e nb w = Some (Inr (), w)"
      by (simp add: backfill_one_def)
    with Cons.IH [of w] show ?thesis by simp
  qed
qed

text \<open>
  C2, as the claim states it, fails: a stored document whose content is the empty string
  (not null) and whose keywords are a non-empty list is not skipped; the crawler is
  called for it.
\<close>

theorem backfill_empty_content_counterexample:
  "content (sample_doc (PStr []) (PList [PStr ''ai''])) \<noteq> PNone \<and>
   keywords_fld (sample_doc (PStr []) (PList [PStr ''ai''])) = PList [PStr ''ai''] \<and>
   find_one [sample_doc (PStr []) (PList [PStr ''ai''])] (PStr ''u'') =
     Some (sample_doc (PStr []) (PList [PStr ''ai''])) \<and>
   extract_detailPage 1 sample_env [sample_stub]
       \<lparr>store = [sample_doc (PStr []) (PList [PStr ''ai''])], slept = [], detail_calls = []\<rparr> =
     Some (Inr (), \<lparr>store = [sample_doc (PStr []) (PList [PStr ''ai''])], slept = [],
                     detail_calls = [PStr ''u'']\<rparr>)"
  by (simp add: sample_env_def sample_stub_def backfill_one_def py_get_def find_one_def
      sample_doc_def complete_doc_def extract_detail_content_def Let_def)

text \<open>
  C2, amended.  For a stub with a non-empty \<^verbatim>\<open>further_url\<close>, the loop body of
  \<^verbatim>\<open>extract_detailPage\<close> returns, and it makes no extraction attempt if and only if a
  document with that url is stored whose keywords and content are both true in Python's
  sense (content neither null nor empty, keywords a non-empty list).  A stored document
  whose content is null or whose keywords are null or the empty list, and a url with no
  stored document, get exactly one extraction attempt.
\<close>

theorem backfill_skip_iff:
  assumes "truthy (py_get news_block ''further_url'' PNone)"
  shows "\<exists>r w'. backfill_one (Suc fuel) e news_block w = Some (r, w') \<and>
           (detail_calls w' = detail_calls w \<longleftrightarrow>
              (\<exists>d. find_one (store w) (py_get news_block ''further_url'' PNone) = Some d \<and>
                   truthy (keywords_fld d) \<and> truthy (content d))) \<and>
           ((\<forall>d. find_one (store w) (py_get news_block ''further_url'' PNone) = Some d \<longrightarrow>
                  content d = PNone \<or> keywords_fld d = PNone \<or> keywords_fld d = PList []) \<longrightarrow>
              detail_calls w' = detail_calls w @ [py_get news_block ''further_url'' PNone])"
proof -
  obtain r w' where run: "backfill_one (Suc fuel) e news_block w = Some (r, w')"
    and calls: "detail_calls w' =
             (if complete_doc (find_one (store w) (py_get news_block ''further_url'' PNone))
              then detail_calls w
              else detail_calls w @ [py_get news_block ''further_url'' PNone])"
    using backfill_one_calls [OF assms] by blast
  show ?thesis
    using run calls by (auto simp: complete_doc_def split: option.splits)
qed

theorem backfill_skip_iff_witness:
  "truthy (py_get sample_stub ''further_url'' PNone) \<and>
   backfill_one (Suc 0) sample_env sample_stub
       \<lparr>store = [sample_doc (PStr ''s'') (PList [PStr ''ai''])], slept = [], detail_calls = []\<rparr> =
     Some (Inr (), \<lparr>store = [sample_doc (PStr ''s'') (PList [PStr ''ai''])], slept = [],
                     detail_calls = []\<rparr>) \<and>
   backfill_one (Suc 0) sample_env sample_stub
       \<lparr>store = [sample_doc (PStr ''s'') PNone], slept = [], detail_calls = []\<rparr> =
     Some (Inr (), \<lparr>store = [sample_doc (PStr ''s'') PNone], slept = [],
                     detail_calls = [PStr ''u'']\<rparr>)"
proof -
  have h: "truthy (py_get sample_stub ''further_url'' PNone)"
    by (simp add: sample_stub_def py_get_def)
  show ?thesis
    using h
      backfill_skip_iff [OF h, of 0 sample_env
        "\<lparr>store = [sample_doc (PStr ''s'') (PList [PStr ''ai''])], slept = [], detail_calls = []\<rparr>"]
      backfill_skip_iff [OF h, of 0 sample_env
        "\<lparr>store = [sample_doc (PStr ''s'') PNone], slept = [], detail_calls = []\<rparr>"]
    by (simp add: sample_env_def sample_stub_def backfill_one_def py_get_def find_one_def
        sample_doc_def complete_doc_def extract_detail_content_def Let_def)
qed

section \<open>Detail backfill: the rate limit\<close>

text \<open>
  C1 at a failing input.  The store holds the incomplete document of one stub; the
  crawler meets a rate limit on its first call and would extract the page on its second.
  \<^verbatim>\<open>extract_detailPage\<close> calls the crawler once, does not sleep, and returns with the
  document still incomplete, however many attempts the loop is allowed.
\<close>

theorem extract_detailPage_rate_limit_not_retried:
  "detail_crawl sample_env 0 (PStr ''u'') = CRaises RateLimitError \<and>
   detail_crawl sample_env 1 (PStr ''u'') = CExtracted [sample_detail (PStr ''ai,vc'')] \<and>
   extract_detailPage (Suc fuel) sample_env [sample_stub]
       \<lparr>store = [sample_doc PNone PNone], slept = [], detail_calls = []\<rparr> =
     Some (Inr (), \<lparr>store = [sample_doc PNone PNone], slept = [],
                     detail_calls = [PStr ''u'']\<rparr>)"
  by (simp add: sample_env_def sample_stub_def backfill_one_def py_get_def find_one_def
      sample_doc_def complete_doc_def extract_detail_content_def Let_def)

section \<open>Sending without attempts\<close>




section \<open>Reconfiguring the scheduler\<close>

lemma register_takeWhile:
  "register ok script ts js =
     (if list_all ok ts then None else Some ScheduleValueError,
      js @ map (\<lambda>t. (t, script)) (takeWhile ok ts))"
  by (induction ts arbitrary: js) auto

text \<open>
  C9.  The library accepts \<^verbatim>\<open>09:00\<close> and \<^verbatim>\<open>11:00\<close>.  After
  \<^verbatim>\<open>set_times('crawler', ["09:00", "11:00"])\<close> and a reload of the configuration,
  whatever the configuration was before: the crawler times are exactly those two, and
  the email times and the two script paths are what they were.  The jobs registered are
  the crawler script at those two times, followed by the email script at the email times
  up to the first one that the library refuses; \<^verbatim>\<open>set_times\<close> raises
  \<^verbatim>\<open>ScheduleValueError\<close> exactly when there is such an email time, after the
  configuration has been saved.  Registering the jobs again after the reload gives the
  same jobs.
\<close>

theorem set_times_crawler_reload:
  assumes "at_accepts ''09:00''" and "at_accepts ''11:00''"
  shows "crawler_times (config (load_config (snd (set_times at_accepts ''crawler'' [''09:00'', ''11:00''] s)))) =
     Some [''09:00'', ''11:00''] \<and>
   email_times (config (load_config (snd (set_times at_accepts ''crawler'' [''09:00'', ''11:00''] s)))) =
     email_times (config s) \<and>
   crawler_script (config (load_config (snd (set_times at_accepts ''crawler'' [''09:00'', ''11:00''] s)))) =
     crawler_script (config s) \<and>
   email_script (config (load_config (snd (set_times at_accepts ''crawler'' [''09:00'', ''11:00''] s)))) =
     email_script (config s) \<and>
   jobs (snd (set_times at_accepts ''crawler'' [''09:00'', ''11:00''] s)) =
     [(''09:00'', get_or (crawler_script (config s)) ''ListPageExtractor.py''),
      (''11:00'', get_or (crawler_script (config s)) ''ListPageExtractor.py'')]
     @ map (\<lambda>time_str. (time_str, get_or (email_script (config s)) ''EmailService.py''))
           (takeWhile at_accepts (get_or (email_times (config s)) [])) \<and>
   fst (set_times at_accepts ''crawler'' [''09:00'', ''11:00''] s) =
     (if list_all at_accepts (get_or (email_times (config s)) []) then None
      else Some ScheduleValueError) \<and>
   jobs (snd (setup_schedule at_accepts
               (load_config (snd (set_times at_accepts ''crawler'' [''09:00'', ''11:00''] s))))) =
     jobs (snd (set_times at_accepts ''crawler'' [''09:00'', ''11:00''] s))"
  using assms
  by (simp add: load_config_def set_times_def setup_schedule_def save_config_def
      register_takeWhile get_or_def)

theorem set_times_crawler_reload_witness:
  "hh_mm ''09:00'' \<and> hh_mm ''11:00'' \<and>
   set_times hh_mm ''crawler'' [''09:00'', ''11:00''] bad_email_time =
     (Some ScheduleValueError,
      \<lparr>config = default_config\<lparr>crawler_times := Some [''09:00'', ''11:00''],
                                email_times := Some [''16:25'', ''bad'', ''17:00'']\<rparr>,
       config_file = Some (default_config\<lparr>crawler_times := Some [''09:00'', ''11:00''],
                                           email_times := Some [''16:25'', ''bad'', ''17:00'']\<rparr>),
       jobs = [(''09:00'', ''ListPageExtractor.py''), (''11:00'', ''ListPageExtractor.py''),
               (''16:25'', ''EmailService.py'')]\<rparr>) \<and>
   config (load_config (snd (set_times hh_mm ''crawler'' [''09:00'', ''11:00''] bad_email_time))) =
     default_config\<lparr>crawler_times := Some [''09:00'', ''11:00''],
                    email_times := Some [''16:25'', ''bad'', ''17:00'']\<rparr> \<and>
   set_times hh_mm ''crawler'' [''09:00'', ''11:00'']
       \<lparr>config = default_config, config_file = None, jobs = []\<rparr> =
     (None,
      \<lparr>config = default_config\<lparr>crawler_times := Some [''09:00'', ''11:00'']\<rparr>,
       config_file = Some (default_config\<lparr>crawler_times := Some [''09:00'', ''11:00'']\<rparr>),
       jobs = [(''09:00'', ''ListPageExtractor.py''), (''11:00'', ''ListPageExtractor.py''),
               (''16:25'', ''EmailService.py'')]\<rparr>)"
proof -
  have a: "hh_mm ''09:00''" and b: "hh_mm ''11:00''" by (simp_all add: hh_mm_def)
  have c: "hh_mm ''16:25''" "\<not> hh_mm ''bad''" by (simp_all add: hh_mm_def)
  show ?thesis
    using a b set_times_crawler_reload [OF a b, of bad_email_time]
      set_times_crawler_reload [OF a b, of "\<lparr>config = default_config, config_file = None, jobs = []\<rparr>"]
    by (simp add: c set_times_def setup_schedule_def save_config_def load_config_def
        bad_email_time_def default_config_def get_or_def)
qed

section \<open>Digest selection\<close>

lemma latest_sorted: "sorted_wrt (\<lambda>a b. published_date b \<le> published_date a) (latest_docs st)"
proof -
  let ?S = "sort_key (\<lambda>d. - published_date d) (filter digest_query st)"
  have "sorted (map (\<lambda>d. - published_date d) ?S)" by (rule sorted_sort_key)
  then have "sorted_wrt (\<lambda>a b. published_date b \<le> published_date a) ?S"
    by (simp add: sorted_map)
  then show ?thesis unfolding latest_docs_def by (rule sorted_wrt_take)
qed

lemma latest_mset: "mset (latest_docs st) + mset (drop 10 (sort_key (\<lambda>d. - published_date d) (filter digest_query st))) = mset (filter digest_query st)"
  unfolding latest_docs_def
  by (metis append_take_drop_id mset_append mset_sort)

lemma latest_top:
  assumes "x \<in># mset (filter digest_query st) - mset (latest_docs st)" "y \<in> set (latest_docs st)"
  shows "published_date x \<le> published_date y"
proof -
  let ?S = "sort_key (\<lambda>d. - published_date d) (filter digest_query st)"
  have "mset (filter digest_query st) - mset (latest_docs st) = mset (drop 10 ?S)"
    using latest_mset [of st] by (metis add_diff_cancel_left')
  with assms have x: "x \<in> set (drop 10 ?S)" by simp
  have y: "y \<in> set (take 10 ?S)" using assms by (simp add: latest_docs_def)
  have "sorted (map (\<lambda>d. - published_date d) ?S)" by (rule sorted_sort_key)
  then have "sorted_wrt (\<lambda>a b. published_date b \<le> published_date a) (take 10 ?S @ drop 10 ?S)"
    by (simp add: sorted_map)
  then show ?thesis using x y unfolding sorted_wrt_append by blast
qed

lemma latest_length: "length (latest_docs st) = min 10 (length (filter digest_query st))"
  by (simp add: latest_docs_def)

lemma latest_sub: "mset (latest_docs st) \<subseteq># mset (filter digest_query st)"
  using latest_mset [of st] by (metis mset_subset_eq_add_left)

lemma sorted_wrt_strict:
  "sorted_wrt (\<lambda>a b. f b \<le> f a) xs \<Longrightarrow> distinct (map f xs) \<Longrightarrow>
     sorted_wrt (\<lambda>a b. (f b :: int) < f a) xs"
proof (induction xs)
  case Nil
  show ?case by simp
next
  case (Cons a xs)
  have "f x < f a" if "x \<in> set xs" for x
  proof -
    have "f x \<le> f a" using Cons.prems(1) that by simp
    moreover have "f a \<notin> f ` set xs" using Cons.prems(2) by simp
    then have "f x \<noteq> f a" using that by (metis imageI)
    ultimately show ?thesis by simp
  qed
  with Cons show ?case by simp
qed

lemma latest_distinct_dates:
  assumes all: "\<forall>d \<in> set st. digest_query d"
    and dist: "distinct (map published_date st)"
  shows "sorted_wrt (\<lambda>a b. published_date b < published_date a) (latest_docs st)"
    and "\<forall>x y. x \<in> set st - set (latest_docs st) \<and> y \<in> set (latest_docs st) \<longrightarrow>
           published_date x < published_date y"
    and "set (latest_docs st) \<subseteq> set st"
proof -
  let ?S = "sort_key (\<lambda>d. - published_date d) st"
  have all_in: "filter digest_query st = st" using all by simp
  have latest: "latest_docs st = take 10 ?S" by (simp add: latest_docs_def all_in)
  have "sorted (map (\<lambda>d. - published_date d) ?S)" by (rule sorted_sort_key)
  then have "sorted_wrt (\<lambda>a b. published_date b \<le> published_date a) ?S"
    by (simp add: sorted_map)
  moreover have "distinct (map published_date ?S)"
    using dist by (simp add: distinct_map)
  ultimately have "sorted_wrt (\<lambda>a b. published_date b < published_date a) (take 10 ?S @ drop 10 ?S)"
    using sorted_wrt_strict [of published_date ?S] by simp
  then have parts: "sorted_wrt (\<lambda>a b. published_date b < published_date a) (take 10 ?S)"
    "\<forall>y \<in> set (take 10 ?S). \<forall>x \<in> set (drop 10 ?S). published_date x < published_date y"
    unfolding sorted_wrt_append by blast+
  show "sorted_wrt (\<lambda>a b. published_date b < published_date a) (latest_docs st)"
    using parts(1) latest by simp
  have "set st = set (take 10 ?S) \<union> set (drop 10 ?S)"
    by (metis append_take_drop_id set_append set_sort)
  then show "\<forall>x y. x \<in> set st - set (latest_docs st) \<and> y \<in> set (latest_docs st) \<longrightarrow>
           published_date x < published_date y"
    using parts(2) latest by auto
  show "set (latest_docs st) \<subseteq> set st"
    using set_take_subset [of 10 ?S] latest by simp
qed


lemma written_query:
  assumes "written d"
  shows "digest_query d \<longleftrightarrow> content d \<noteq> PNone \<and> (\<exists>k ks. keywords_fld d = PList (k # ks))"
proof (cases "keywords_fld d")
  case (PList l)
  then show ?thesis by (cases l) (auto simp: digest_query_def)
qed (use assms in \<open>auto simp: digest_query_def written_def\<close>)

lemma written_filter:
  assumes "list_all written st"
  shows "filter digest_query st =
           filter (\<lambda>d. content d \<noteq> PNone \<and> (\<exists>k ks. keywords_fld d = PList (k # ks))) st"
  using assms by (intro filter_cong) (auto simp: list_all_iff written_query)

lemma format_written: "format_news_document e n dc = Inr document \<Longrightarrow> written document"
  by (auto simp: format_news_document_def Let_def written_def normalize_key_words_def
      split: sum.splits pyval.splits option.splits list.splits if_splits)

lemma upsert_written:
  "list_all written st \<Longrightarrow> written d \<Longrightarrow> list_all written (upsert_document st u d)"
  by (induction st) (auto simp: written_def)

lemma update_detail_written:
  "list_all written st \<Longrightarrow> c = PNone \<or> is_list k \<Longrightarrow> list_all written (update_detail st u c k t)"
  by (induction st) (auto simp: written_def)

lemma store_news_written:
  "list_all written st \<Longrightarrow> list_all written (snd (snd (store_news e news_data processed st)))"
proof (induction news_data arbitrary: processed st)
  case Nil
  then show ?case by simp
next
  case (Cons news rest)
  then show ?case
    by (auto simp: Let_def upsert_written format_written split: sum.splits option.splits)
qed

lemma crawl_sources_written:
  "list_all written st \<Longrightarrow> list_all written (snd (crawl_sources e us processed st))"
proof (induction us arbitrary: processed st)
  case Nil
  then show ?case by simp
next
  case (Cons u us)
  show ?case
  proof (cases "list_crawl e u")
    case (LItems news_data)
    obtain x p st1 where run: "store_news e news_data processed st = (x, p, st1)"
      by (cases "store_news e news_data processed st") auto
    have "list_all written st1"
      using store_news_written [OF Cons.prems, of e news_data processed] run by simp
    then have "list_all written (snd (crawl_sources e us p st1))" by (rule Cons.IH)
    with LItems run \<open>list_all written st1\<close> show ?thesis by (auto split: option.splits)
  qed (use Cons in auto)
qed

lemma backfill_one_written:
  assumes "backfill_one fuel e news_block w = Some (r, w')" and "list_all written (store w)"
  shows "list_all written (store w')"
proof (cases fuel)
  case 0
  with assms show ?thesis
    by (auto simp: backfill_one_def Let_def split: if_splits)
next
  case (Suc k)
  have keep: "store v' = store v" if "detail_retry (Suc k) e u v = Some (x, v')" for u v x v'
    using that
    by (auto simp: extract_detail_content_def module_globals_def Let_def
        split: if_splits crawl_outcome.splits)
  show ?thesis
    using assms Suc
    by (auto simp: backfill_one_def Let_def written_def
        simp del: detail_retry.simps
        split: if_splits option.splits sum.splits prod.splits
        dest!: keep format_written intro!: update_detail_written)
qed

lemma extract_detailPage_written:
  assumes "extract_detailPage fuel e news_data w = Some (r, w')" and "list_all written (store w)"
  shows "list_all written (store w')"
  using assms
proof (induction news_data arbitrary: w)
  case Nil
  then show ?case by simp
next
  case (Cons nb rest)
  then show ?case
    by (auto split: option.splits sum.splits prod.splits dest: backfill_one_written)
qed

text \<open>
  C5.  On every store that holds what the writers of the repository leave in it,
  \<^verbatim>\<open>get_latest_news_from_mongodb\<close> returns the entries of exactly the documents with a
  content that is not null and a non-empty list of keywords: the ten newest of them by
  publication date, or all of them when there are fewer, newest first, so that no such
  document left out is newer than one returned.  In particular, of fifteen complete
  documents with distinct publication dates it returns ten, in strictly descending order
  of date, each newer than every document left out.
\<close>

theorem digest_selection:
  assumes "list_all written st"
  shows "get_latest_news_from_mongodb st =
           map (\<lambda>d. \<lparr>item_title = title d, summary = content d, key_words = keywords_fld d,
                      item_url = url d\<rparr>) (latest_docs st) \<and>
   latest_docs st =
     take 10 (sort_key (\<lambda>d. - published_date d)
       (filter (\<lambda>d. content d \<noteq> PNone \<and> (\<exists>k ks. keywords_fld d = PList (k # ks))) st)) \<and>
   mset (latest_docs st) \<subseteq>#
     mset (filter (\<lambda>d. content d \<noteq> PNone \<and> (\<exists>k ks. keywords_fld d = PList (k # ks))) st) \<and>
   length (latest_docs st) =
     min 10 (length (filter (\<lambda>d. content d \<noteq> PNone \<and> (\<exists>k ks. keywords_fld d = PList (k # ks))) st)) \<and>
   sorted_wrt (\<lambda>a b. published_date b \<le> published_date a) (latest_docs st) \<and>
   (\<forall>x y. x \<in># mset (filter (\<lambda>d. content d \<noteq> PNone \<and> (\<exists>k ks. keywords_fld d = PList (k # ks))) st)
              - mset (latest_docs st) \<and> y \<in> set (latest_docs st)
        \<longrightarrow> published_date x \<le> published_date y) \<and>
   (length st = 15 \<and> list_all (\<lambda>d. content d \<noteq> PNone \<and> (\<exists>k ks. keywords_fld d = PList (k # ks))) st \<and>
      distinct (map published_date st) \<longrightarrow>
      length (latest_docs st) = 10 \<and> set (latest_docs st) \<subseteq> set st \<and>
      sorted_wrt (\<lambda>a b. published_date b < published_date a) (latest_docs st) \<and>
      (\<forall>x y. x \<in> set st - set (latest_docs st) \<and> y \<in> set (latest_docs st) \<longrightarrow>
          published_date x < published_date y))"
proof -
  let ?complete = "\<lambda>d. content d \<noteq> PNone \<and> (\<exists>k ks. keywords_fld d = PList (k # ks))"
  have same: "filter digest_query st = filter ?complete st"
    using assms by (rule written_filter)
  have general: "get_latest_news_from_mongodb st =
           map (\<lambda>d. \<lparr>item_title = title d, summary = content d, key_words = keywords_fld d,
                      item_url = url d\<rparr>) (latest_docs st) \<and>
   latest_docs st = take 10 (sort_key (\<lambda>d. - published_date d) (filter ?complete st)) \<and>
   mset (latest_docs st) \<subseteq># mset (filter ?complete st) \<and>
   length (latest_docs st) = min 10 (length (filter ?complete st)) \<and>
   sorted_wrt (\<lambda>a b. published_date b \<le> published_date a) (latest_docs st) \<and>
   (\<forall>x y. x \<in># mset (filter ?complete st) - mset (latest_docs st) \<and> y \<in> set (latest_docs st)
        \<longrightarrow> published_date x \<le> published_date y)"
  proof (intro conjI)
    show "get_latest_news_from_mongodb st =
           map (\<lambda>d. \<lparr>item_title = title d, summary = content d, key_words = keywords_fld d,
                      item_url = url d\<rparr>) (latest_docs st)"
      by (simp add: get_latest_news_from_mongodb_def formatted_def)
    show "latest_docs st = take 10 (sort_key (\<lambda>d. - published_date d) (filter ?complete st))"
      unfolding latest_docs_def same ..
    show "mset (latest_docs st) \<subseteq># mset (filter ?complete st)"
      using latest_sub [of st] unfolding same .
    show "length (latest_docs st) = min 10 (length (filter ?complete st))"
      using latest_length [of st] unfolding same .
    show "sorted_wrt (\<lambda>a b. published_date b \<le> published_date a) (latest_docs st)"
      by (rule latest_sorted)
    show "\<forall>x y. x \<in># mset (filter ?complete st) - mset (latest_docs st) \<and> y \<in> set (latest_docs st)
        \<longrightarrow> published_date x \<le> published_date y"
      using latest_top [of _ st] unfolding same by blast
  qed
  have special: "length (latest_docs st) = 10 \<and> set (latest_docs st) \<subseteq> set st \<and>
      sorted_wrt (\<lambda>a b. published_date b < published_date a) (latest_docs st) \<and>
      (\<forall>x y. x \<in> set st - set (latest_docs st) \<and> y \<in> set (latest_docs st) \<longrightarrow>
          published_date x < published_date y)"
    if len: "length st = 15" and all: "list_all ?complete st"
      and dist: "distinct (map published_date st)"
  proof -
    have q: "\<forall>d \<in> set st. digest_query d"
      using all by (auto simp: list_all_iff digest_query_def)
    then have "filter digest_query st = st" by simp
    then have "length (latest_docs st) = 10"
      using len by (simp add: latest_length)
    then show ?thesis
      using latest_distinct_dates [OF q dist] by blast
  qed
  from general special show ?thesis by blast
qed

theorem digest_selection_witness:
  "list_all written (sample_doc PNone PNone # sample_doc (PStr ''s'') (PList []) # fifteen) \<and>
   get_latest_news_from_mongodb
       (sample_doc PNone PNone # sample_doc (PStr ''s'') (PList []) # fifteen) =
     map (\<lambda>t. \<lparr>item_title = PStr ''t'', summary = PStr ''s'', key_words = PList [PStr ''ai''],
                item_url = PInt t\<rparr>) [15, 14, 13, 12, 11, 10, 9, 8, 7, 6] \<and>
   list_all written fifteen \<and>
   length fifteen = 15 \<and>
   list_all (\<lambda>d. content d \<noteq> PNone \<and> (\<exists>k ks. keywords_fld d = PList (k # ks))) fifteen \<and>
   distinct (map published_date fifteen) \<and>
   latest_docs fifteen = map dated [15, 14, 13, 12, 11, 10, 9, 8, 7, 6] \<and>
   length (latest_docs fifteen) = 10 \<and>
   sorted_wrt (\<lambda>a b. published_date b < published_date a) (latest_docs fifteen)"
proof -
  let ?st = "sample_doc PNone PNone # sample_doc (PStr ''s'') (PList []) # fifteen"
  have w: "list_all written fifteen" and w': "list_all written ?st"
    by (simp_all add: fifteen_def dated_def written_def sample_doc_def)
  have a: "length fifteen = 15" by (simp add: fifteen_def)
  have b: "list_all (\<lambda>d. content d \<noteq> PNone \<and> (\<exists>k ks. keywords_fld d = PList (k # ks))) fifteen"
    by (simp add: fifteen_def dated_def)
  have c: "distinct (map published_date fifteen)" by (simp add: fifteen_def dated_def)
  have d: "latest_docs fifteen = map dated [15, 14, 13, 12, 11, 10, 9, 8, 7, 6]"
    by (simp add: latest_docs_def fifteen_def dated_def digest_query_def)
  have e: "filter (\<lambda>d. content d \<noteq> PNone \<and> (\<exists>k ks. keywords_fld d = PList (k # ks))) ?st = fifteen"
    by (simp add: fifteen_def dated_def sample_doc_def)
  have e': "filter (\<lambda>d. content d \<noteq> PNone \<and> (\<exists>k ks. keywords_fld d = PList (k # ks))) fifteen = fifteen"
    using b by (simp add: list_all_iff)
  have "latest_docs ?st = latest_docs fifteen"
    using digest_selection [OF w', THEN conjunct2, THEN conjunct1]
      digest_selection [OF w, THEN conjunct2, THEN conjunct1]
    unfolding e e' by simp
  then have f: "get_latest_news_from_mongodb ?st =
     map (\<lambda>t. \<lparr>item_title = PStr ''t'', summary = PStr ''s'', key_words = PList [PStr ''ai''],
                item_url = PInt t\<rparr>) [15, 14, 13, 12, 11, 10, 9, 8, 7, 6]"
    using digest_selection [OF w', THEN conjunct1] by (simp add: d dated_def)
  show ?thesis using w w' a b c d f digest_selection [OF w] by blast
qed

text \<open>
  The hypothesis on the store is needed, and the writers keep it.  A document with a
  content and null keywords, which neither writer stores, passes the query of line 87;
  the listing extractor and the detail backfill take a store that satisfies the
  hypothesis to one that does, so every store they build from the empty collection
  satisfies it.
\<close>

lemma digest_query_null_keywords:
  "\<not> written (sample_doc (PStr ''s'') PNone) \<and>
   get_latest_news_from_mongodb [sample_doc (PStr ''s'') PNone] =
     [\<lparr>item_title = PStr ''t'', summary = PStr ''s'', key_words = PNone,
       item_url = PStr ''u''\<rparr>]"
  by (simp add: get_latest_news_from_mongodb_def latest_docs_def digest_query_def
      sample_doc_def formatted_def written_def)

lemma extract_news_list_from_written:
  "list_all written st \<Longrightarrow> list_all written (snd (extract_news_list_from e us st))"
  by (simp add: extract_news_list_from_def crawl_sources_written)

section \<open>Listing twice\<close>











lemma extract_news_list_source: "extract_news_list e st = (Inr [], st)"
  by (simp add: extract_news_list_def extract_news_list_from_def urls_def)




end
